theory Spec2Isabelle
  imports Main
begin

unbundle bit_operations_syntax

section \<open>Data model\<close>

text \<open>
  The package \<open>sivafs\<close> shows a flat, append-only siva archive as a filesystem.
  The archive library, the path library and the backing filesystem are collaborators
  outside the package; their behaviour is written down here as far as the package
  depends on it, and every failure they may report is an input of the model.
\<close>

type_synonym time = int
  \<comment> \<open>\<open>time.Time\<close> as an offset from the zero value of the type, which is \<open>0\<close>.\<close>

type_synonym flags = int
  \<comment> \<open>The \<open>flag int\<close> argument of \<open>OpenFile\<close>; only \<open>&\<close> is applied to it.\<close>

type_synonym FileMode = nat

datatype errno = ENOTDIR | ENOTEMPTY

datatype error =
    ErrNotSupported
  | ErrFileWriteModeAlreadyOpen
  | ErrNotExist
  | PathError string string errno
  | ErrBadPattern
  | External nat
  | NilDereference

text \<open>
  \<open>PathError op path errno\<close> is \<open>&os.PathError{Op, Path, Err}\<close>. \<open>External n\<close> is an
  error reported by a collaborator (the backing filesystem or the archive
  reader/writer), passed on unchanged. \<open>NilDereference\<close> is the panic of a call through
  \<open>fs.rw\<close> while it is \<open>nil\<close>.
\<close>

definition FlagDeleted :: nat where
  "FlagDeleted = 1"

record Header =
  Name :: string
  ModTime :: time
  Mode :: FileMode
  Flags :: nat

type_synonym Index = "Header list"
  \<comment> \<open>\<open>siva.Index\<close>: the entries of the archive in the order they were appended.\<close>

text \<open>
  Modelled from the spec: \<open>newFileInfo\<close> and \<open>newDirFileInfo\<close> are declared in a file
  of the package that is not among the sources. The information of a file is that of
  its entry; a synthetic directory has a path and a modification time and nothing else.
  Both are kept as free constructors.
\<close>

datatype FileInfo =
    newFileInfo Header
  | newDirFileInfo string time

text \<open>
  Modelled from the spec: \<open>newFile\<close> and \<open>openFile\<close>, the constructors of the write and
  the read handle, are declared in a file of the package that is not among the sources.
  A handle is bound to one entry name; a write handle runs the \<open>closeFunc\<close> it was given
  when it is closed. \<open>newFile path rw closeFunc\<close> is kept as the path together with the
  flag that the \<open>closeFunc\<close> closure captured, \<open>openFile path sr\<close> as the path and
  the entry read.
\<close>

datatype File =
    newFile string flags
  | openFile_handle string Header

record sivaFS =
  path :: string
  f :: "string option"
  rw :: "Index option"
  fileWriteModeOpen :: bool

text \<open>
  \<open>f\<close> is the open handle on the backing file (its name), \<open>rw\<close> the archive
  reader/writer, reduced to the index it holds (the entries read when it was opened
  followed by the headers written since).
\<close>

record env =
  now :: time
  open_err :: "nat option"
  rw_err :: "nat option"
  stored :: Index
  index_err :: "nat option"
  write_err :: "nat option"
  get_err :: "nat option"
  flush_err :: "nat option"
  rw_close_err :: "nat option"
  f_close_err :: "nat option"

text \<open>
  What the collaborators answer during one operation: \<open>time.Now()\<close>, the failure (if
  any) of \<open>underlying.OpenFile\<close>, of \<open>siva.NewReaderWriter\<close>, of \<open>rw.Index\<close>,
  \<open>rw.WriteHeader\<close>, \<open>rw.Get\<close>, \<open>rw.Flush\<close>, \<open>rw.Close\<close> and \<open>f.Close\<close>, and the
  index that \<open>siva.NewReaderWriter\<close> reads from the backing file.
\<close>

definition wrap :: "nat option \<Rightarrow> error option" where
  "wrap e = map_option External e"

section \<open>Open flags\<close>

text \<open>The values of package \<open>os\<close> on Linux; \<open>O_RDONLY\<close> is zero on every platform.\<close>

definition O_RDONLY :: flags where "O_RDONLY = 0"
definition O_WRONLY :: flags where "O_WRONLY = 1"
definition O_RDWR :: flags where "O_RDWR = 2"
definition O_CREATE :: flags where "O_CREATE = 64"
definition O_TRUNC :: flags where "O_TRUNC = 512"
definition O_APPEND :: flags where "O_APPEND = 1024"

section \<open>Session: ensureOpen, ensureClosed, Sync\<close>

definition ensureOpen :: "env \<Rightarrow> sivaFS \<Rightarrow> error option \<times> sivaFS" where
  "ensureOpen ev fs =
     (if rw fs \<noteq> None then (None, fs)
      else case open_err ev of
        Some e \<Rightarrow> (Some (External e), fs)
      | None \<Rightarrow>
         (case rw_err ev of
            Some e \<Rightarrow> (Some (External e), fs)
          | None \<Rightarrow> (None, fs\<lparr>rw := Some (stored ev), f := Some (path fs)\<rparr>)))"

definition ensureClosed :: "env \<Rightarrow> sivaFS \<Rightarrow> error option \<times> sivaFS" where
  "ensureClosed ev fs =
     (if rw fs = None then (None, fs)
      else case rw_close_err ev of
        Some e \<Rightarrow> (Some (External e), fs)
      | None \<Rightarrow> (wrap (f_close_err ev), fs\<lparr>rw := None, f := None\<rparr>))"

definition Sync :: "env \<Rightarrow> sivaFS \<Rightarrow> error option \<times> sivaFS" where
  "Sync ev fs = ensureClosed ev fs"

section \<open>Paths: packages \<open>path\<close> and \<open>path/filepath\<close>\<close>

text \<open>
  The standard library is outside the package. \<open>Clean\<close> follows its documentation:
  the path is cut at every slash; empty elements and \<open>.\<close> are dropped; \<open>..\<close> removes the
  element before it, is dropped at the root, and is kept at the start of a path that is
  not rooted; the empty result is \<open>.\<close>. On a Unix system \<open>filepath.Clean\<close>,
  \<open>filepath.Join\<close> are \<open>path.Clean\<close>, \<open>path.Join\<close>. Strings are byte lists.
\<close>

fun splitPath :: "string \<Rightarrow> string list" where
  "splitPath [] = [[]]"
| "splitPath (c # cs) =
     (if c = CHR ''/'' then [] # splitPath cs
      else (case splitPath cs of [] \<Rightarrow> [[c]] | x # xs \<Rightarrow> (c # x) # xs))"

fun joinPath :: "string list \<Rightarrow> string" where
  "joinPath [] = []"
| "joinPath [x] = x"
| "joinPath (x # y # ys) = x @ CHR ''/'' # joinPath (y # ys)"

definition cleanStep :: "bool \<Rightarrow> string list \<Rightarrow> string \<Rightarrow> string list" where
  "cleanStep rooted out e =
     (if e = [] \<or> e = ''.'' then out
      else if e = ''..'' then
        (if out \<noteq> [] \<and> hd out \<noteq> ''..'' then tl out
         else if rooted then out else e # out)
      else e # out)"

text \<open>\<open>out\<close> holds the elements written so far, the last one first.\<close>

definition Clean :: "string \<Rightarrow> string" where
  "Clean p =
     (if p = [] then ''.''
      else
        let rooted = (hd p = CHR ''/'');
            out = rev (foldl (cleanStep rooted) [] (splitPath p));
            s = (if rooted then ''/'' else []) @ joinPath out
        in if s = [] then ''.'' else s)"

definition Join :: "string list \<Rightarrow> string" where
  "Join elem =
     (case dropWhile (\<lambda>e. e = []) elem of
        [] \<Rightarrow> []
      | es \<Rightarrow> Clean (joinPath es))"

definition Dir :: "string \<Rightarrow> string" where
  "Dir p = Clean (rev (dropWhile (\<lambda>c. c \<noteq> CHR ''/'') (rev p)))"

subsection \<open>addTrailingSlash, normalizePath, removeLeadingSlash\<close>

definition addTrailingSlash :: "string \<Rightarrow> string" where
  "addTrailingSlash p =
     (if p = [] then p
      else if last p \<noteq> CHR ''/'' then p @ ''/'' else p)"

definition removeLeadingSlash :: "string \<Rightarrow> string" where
  "removeLeadingSlash p = (case p of [] \<Rightarrow> p | c # cs \<Rightarrow> if c = CHR ''/'' then cs else p)"

definition normalizePath :: "string \<Rightarrow> string" where
  "normalizePath p = removeLeadingSlash (Join [''/'', p])"

section \<open>Patterns: \<open>filepath.Match\<close>\<close>

text \<open>
  Modelled from the documentation of \<open>filepath.Match\<close>: a pattern is a sequence of
  terms, \<open>*\<close> (any sequence of characters other than the separator), \<open>?\<close> (one
  character other than the separator), a character class \<open>[...]\<close> or \<open>[^...]\<close> of
  characters and ranges \<open>lo-hi\<close>, \<open>\c\<close> (the character \<open>c\<close>) and any other character
  (itself). The whole name has to match. A malformed pattern is \<open>ErrBadPattern\<close>.
  Characters are bytes. The statements about directories below take the directory free
  of \<open>*\<close>, \<open>?\<close>, \<open>[\<close> and the backslash, so that of the pattern language they only
  depend on literal characters and on \<open>*\<close>.
\<close>

datatype glob = Star | AnyChar | Lit char | Class bool "(char \<times> char) list"

definition isMeta :: "char \<Rightarrow> bool" where
  "isMeta c = (c = CHR ''*'' \<or> c = CHR ''?'' \<or> c = CHR ''['' \<or> c = CHR 0x5C)"

fun getEsc :: "string \<Rightarrow> (char \<times> string) option" where
  "getEsc [] = None"
| "getEsc (c # cs) =
     (if c = CHR ''-'' \<or> c = CHR '']'' then None
      else if c = CHR 0x5C then
        (case cs of [] \<Rightarrow> None | x # xs \<Rightarrow> if xs = [] then None else Some (x, xs))
      else if cs = [] then None else Some (c, cs))"

lemma getEsc_shorter: "getEsc s = Some (c, r) \<Longrightarrow> length r < length s"
  by (cases s) (auto split: if_splits list.splits)

function scanRanges :: "string \<Rightarrow> (char \<times> char) list \<Rightarrow> ((char \<times> char) list \<times> string) option" where
  "scanRanges chunk rs =
     (case chunk of
        [] \<Rightarrow> None
      | c # cs \<Rightarrow>
          if c = CHR '']'' \<and> rs \<noteq> [] then Some (rs, cs)
          else (case getEsc chunk of
                  None \<Rightarrow> None
                | Some (lo, chunk1) \<Rightarrow>
                    (case chunk1 of
                       [] \<Rightarrow> None
                     | d # ds \<Rightarrow>
                         if d = CHR ''-'' then
                           (case getEsc ds of
                              None \<Rightarrow> None
                            | Some (hi, chunk2) \<Rightarrow> scanRanges chunk2 (rs @ [(lo, hi)]))
                         else scanRanges chunk1 (rs @ [(lo, lo)]))))"
  by pat_completeness auto
termination
  by (relation "measure (\<lambda>(chunk, rs). length chunk)")
     (auto dest!: getEsc_shorter simp del: getEsc.simps)

lemma scanRanges_shorter: "scanRanges s rs = Some (rs', r) \<Longrightarrow> length r < length s"
proof (induction s rs rule: scanRanges.induct)
  case (1 chunk rs)
  show ?case
  proof (cases chunk)
    case Nil
    with "1.prems" show ?thesis by simp
  next
    case (Cons c cs)
    show ?thesis
    proof (cases "c = CHR '']'' \<and> rs \<noteq> []")
      case True
      with "1.prems" Cons show ?thesis by auto
    next
      case False
      from "1.prems" Cons False obtain lo chunk1 where g1: "getEsc chunk = Some (lo, chunk1)"
        by (auto split: option.splits)
      from "1.prems" Cons False g1 obtain d ds where c1: "chunk1 = d # ds"
        by (cases chunk1) auto
      have l1: "length chunk1 < length chunk" using g1 by (rule getEsc_shorter)
      show ?thesis
      proof (cases "d = CHR ''-''")
        case True
        from "1.prems" Cons False g1 c1 True obtain hi chunk2
          where g2: "getEsc ds = Some (hi, chunk2)"
            and r: "scanRanges chunk2 (rs @ [(lo, hi)]) = Some (rs', r)"
          by (auto split: option.splits)
        have "length r < length chunk2"
          using "1.IH"(1) [OF Cons False g1 refl c1 True g2 refl r] .
        moreover have "length chunk2 < length ds" using g2 by (rule getEsc_shorter)
        ultimately show ?thesis using l1 c1 by simp
      next
        case F2: False
        from "1.prems" Cons False g1 c1 F2
        have r: "scanRanges chunk1 (rs @ [(lo, lo)]) = Some (rs', r)"
          by auto
        have "length r < length chunk1"
          using "1.IH"(2) [OF Cons False g1 refl c1 F2 r] .
        then show ?thesis using l1 by simp
      qed
    qed
  qed
qed

declare scanRanges.simps [simp del]

definition scanClass :: "string \<Rightarrow> (bool \<times> (char \<times> char) list \<times> string) option" where
  "scanClass chunk =
     (case chunk of
        [] \<Rightarrow> map_option (\<lambda>(rs, r). (False, rs, r)) (scanRanges chunk [])
      | c # cs \<Rightarrow>
          if c = CHR ''^'' then map_option (\<lambda>(rs, r). (True, rs, r)) (scanRanges cs [])
          else map_option (\<lambda>(rs, r). (False, rs, r)) (scanRanges chunk []))"

lemma scanClass_shorter: "scanClass s = Some (neg, rs, r) \<Longrightarrow> length r < Suc (length s)"
  by (cases s) (auto simp: scanClass_def split: if_splits dest!: scanRanges_shorter)

function scanPattern :: "string \<Rightarrow> glob list option" where
  "scanPattern [] = Some []"
| "scanPattern (c # cs) =
     (if c = CHR ''*'' then map_option ((#) Star) (scanPattern cs)
      else if c = CHR ''?'' then map_option ((#) AnyChar) (scanPattern cs)
      else if c = CHR ''['' then
        (case scanClass cs of
           None \<Rightarrow> None
         | Some (neg, rs, rest) \<Rightarrow> map_option ((#) (Class neg rs)) (scanPattern rest))
      else if c = CHR 0x5C then
        (case cs of [] \<Rightarrow> None | x # xs \<Rightarrow> map_option ((#) (Lit x)) (scanPattern xs))
      else map_option ((#) (Lit c)) (scanPattern cs))"
  by pat_completeness auto
termination
  by (relation "measure length") (auto dest!: scanClass_shorter)

definition inRanges :: "(char \<times> char) list \<Rightarrow> char \<Rightarrow> bool" where
  "inRanges rs c =
     list_ex (\<lambda>(lo, hi). (of_char lo :: nat) \<le> of_char c \<and> (of_char c :: nat) \<le> of_char hi) rs"

fun globMatch :: "glob list \<Rightarrow> string \<Rightarrow> bool" where
  "globMatch [] s = (s = [])"
| "globMatch (Star # ts) s =
     (globMatch ts s \<or>
      (case s of [] \<Rightarrow> False | c # cs \<Rightarrow> c \<noteq> CHR ''/'' \<and> globMatch (Star # ts) cs))"
| "globMatch (AnyChar # ts) s =
     (case s of [] \<Rightarrow> False | c # cs \<Rightarrow> c \<noteq> CHR ''/'' \<and> globMatch ts cs)"
| "globMatch (Lit x # ts) s =
     (case s of [] \<Rightarrow> False | c # cs \<Rightarrow> c = x \<and> globMatch ts cs)"
| "globMatch (Class neg rs # ts) s =
     (case s of [] \<Rightarrow> False | c # cs \<Rightarrow> inRanges rs c \<noteq> neg \<and> globMatch ts cs)"

definition Match :: "string \<Rightarrow> string \<Rightarrow> error + bool" where
  "Match pattern name =
     (case scanPattern pattern of
        None \<Rightarrow> Inl ErrBadPattern
      | Some ts \<Rightarrow> Inr (globMatch ts name))"

section \<open>The archive index: package \<open>siva\<close>\<close>

text \<open>
  The archive library is outside the package. \<open>Index.Filter\<close> walks the index from
  the newest entry to the oldest, keeps the first entry it meets of every name unless
  that entry carries \<open>FlagDeleted\<close>, and returns the kept entries sorted by their
  position in the archive, that is, in the order they were appended.
  \<open>Index.Find\<close> returns the first entry with the given name, \<open>Index.Glob\<close> the
  entries whose name matches the pattern, or the error of \<open>filepath.Match\<close>.
\<close>

fun filterLoop :: "string list \<Rightarrow> Index \<Rightarrow> Index" where
  "filterLoop seen [] = []"
| "filterLoop seen (e # es) =
     (if Name e \<in> set seen then filterLoop seen es
      else if Flags e AND FlagDeleted = 0 then e # filterLoop (Name e # seen) es
      else filterLoop (Name e # seen) es)"

definition Filter :: "Index \<Rightarrow> Index" where
  "Filter i = rev (filterLoop [] (rev i))"

definition Find :: "Index \<Rightarrow> string \<Rightarrow> Header option" where
  "Find i name = find (\<lambda>e. Name e = name) i"

fun Glob :: "Index \<Rightarrow> string \<Rightarrow> error + Header list" where
  "Glob [] pattern = Inr []"
| "Glob (e # es) pattern =
     (case Match pattern (Name e) of
        Inl err \<Rightarrow> Inl err
      | Inr m \<Rightarrow>
          (case Glob es pattern of
             Inl err \<Rightarrow> Inl err
           | Inr matches \<Rightarrow> Inr (if m then e # matches else matches)))"

definition WriteHeader :: "env \<Rightarrow> Header \<Rightarrow> sivaFS \<Rightarrow> error option \<times> sivaFS" where
  "WriteHeader ev h fs =
     (case rw fs of
        None \<Rightarrow> (Some NilDereference, fs)
      | Some i \<Rightarrow>
          (case write_err ev of
             Some e \<Rightarrow> (Some (External e), fs)
           | None \<Rightarrow> (None, fs\<lparr>rw := Some (i @ [h])\<rparr>)))"

section \<open>The filesystem\<close>

definition getIndex :: "env \<Rightarrow> sivaFS \<Rightarrow> error + Index" where
  "getIndex ev fs =
     (case rw fs of
        None \<Rightarrow> Inl NilDereference
      | Some i \<Rightarrow>
          (case index_err ev of
             Some e \<Rightarrow> Inl (External e)
           | None \<Rightarrow> Inr (Filter i)))"

definition listFiles :: "Index \<Rightarrow> string \<Rightarrow> error + FileInfo list" where
  "listFiles index dir =
     (let dir = addTrailingSlash dir in
      case Glob index (dir @ ''*'') of
        Inl err \<Rightarrow> Inl err
      | Inr entries \<Rightarrow> Inr (map newFileInfo entries))"

definition latest :: "time \<Rightarrow> Header list \<Rightarrow> time" where
  "latest t entries = foldl (\<lambda>oldDir e. if oldDir < ModTime e then ModTime e else oldDir) t entries"

definition getDir :: "Index \<Rightarrow> string \<Rightarrow> error + FileInfo option" where
  "getDir index dir =
     (let dir = addTrailingSlash dir in
      case Glob index (Join [dir, ''*'']) of
        Inl err \<Rightarrow> Inl err
      | Inr entries \<Rightarrow>
          if length entries = 0 then Inr None
          else Inr (Some (newDirFileInfo (Clean dir) (latest 0 entries))))"

definition dirsStep :: "(string \<times> time) list \<Rightarrow> Header \<Rightarrow> (string \<times> time) list" where
  "dirsStep dirs e =
     (let dir = Dir (Name e) in
      case map_of dirs dir of
        None \<Rightarrow> dirs @ [(dir, ModTime e)]
      | Some oldDir \<Rightarrow>
          if oldDir < ModTime e then map (\<lambda>(k, v). if k = dir then (k, ModTime e) else (k, v)) dirs
          else dirs)"

text \<open>
  The map \<open>dirs\<close> of \<open>listDirs\<close> is kept as a list of distinct keys in the order of
  first insertion. The source ranges over a Go map, whose order is not fixed: only the
  set of the listed directories is meant.
\<close>

definition listDirs :: "Index \<Rightarrow> string \<Rightarrow> error + FileInfo list" where
  "listDirs index dir =
     (let dir = addTrailingSlash dir in
      case Glob index (dir @ ''*/*'') of
        Inl err \<Rightarrow> Inl err
      | Inr entries \<Rightarrow>
          Inr (map (\<lambda>(dir, mt). newDirFileInfo dir mt) (foldl dirsStep [] entries)))"

definition createFile :: "env \<Rightarrow> string \<Rightarrow> flags \<Rightarrow> FileMode \<Rightarrow> sivaFS \<Rightarrow> (error + File) \<times> sivaFS" where
  "createFile ev p flag mode fs =
     (if flag AND O_RDWR \<noteq> 0 \<or> flag AND O_RDONLY \<noteq> 0 then (Inl ErrNotSupported, fs)
      else
        let header = \<lparr>Name = p, ModTime = now ev, Mode = mode, Flags = 0\<rparr> in
        case WriteHeader ev header fs of
          (Some err, fs') \<Rightarrow> (Inl err, fs')
        | (None, fs') \<Rightarrow> (Inr (newFile p flag), fs'\<lparr>fileWriteModeOpen := True\<rparr>))"

definition closeFunc :: "flags \<Rightarrow> env \<Rightarrow> sivaFS \<Rightarrow> error option \<times> sivaFS" where
  "closeFunc flag ev fs =
     (if rw fs = None then (None, fs)
      else
        let fs' = (if flag AND O_WRONLY \<noteq> 0 \<or> flag AND O_RDWR \<noteq> 0
                   then fs\<lparr>fileWriteModeOpen := False\<rparr> else fs)
        in (wrap (flush_err ev), fs'))"

text \<open>
  \<open>closeFunc flag\<close> is the closure that \<open>createFile\<close> hands to \<open>newFile\<close>; the handle
  runs it when it is closed.
\<close>

definition openFile :: "env \<Rightarrow> string \<Rightarrow> flags \<Rightarrow> FileMode \<Rightarrow> sivaFS \<Rightarrow> (error + File) \<times> sivaFS" where
  "openFile ev p flag mode fs =
     (if flag AND O_RDWR \<noteq> 0 \<or> flag AND O_WRONLY \<noteq> 0 then (Inl ErrNotSupported, fs)
      else case getIndex ev fs of
        Inl err \<Rightarrow> (Inl err, fs)
      | Inr index \<Rightarrow>
          (case Find index p of
             None \<Rightarrow> (Inl ErrNotExist, fs)
           | Some e \<Rightarrow>
               (case get_err ev of
                  Some err \<Rightarrow> (Inl (External err), fs)
                | None \<Rightarrow> (Inr (openFile_handle p e), fs))))"

definition OpenFile :: "env \<Rightarrow> string \<Rightarrow> flags \<Rightarrow> FileMode \<Rightarrow> sivaFS \<Rightarrow> (error + File) \<times> sivaFS" where
  "OpenFile ev p flag mode fs =
     (let p = normalizePath p in
      if flag AND O_CREATE \<noteq> 0 \<and> flag AND O_TRUNC = 0 then (Inl ErrNotSupported, fs)
      else case ensureOpen ev fs of
        (Some err, fs') \<Rightarrow> (Inl err, fs')
      | (None, fs') \<Rightarrow>
          if flag AND O_CREATE \<noteq> 0 then
            (if fileWriteModeOpen fs' then (Inl ErrFileWriteModeAlreadyOpen, fs')
             else createFile ev p flag mode fs')
          else openFile ev p flag mode fs')"

definition Create :: "env \<Rightarrow> string \<Rightarrow> sivaFS \<Rightarrow> (error + File) \<times> sivaFS" where
  "Create ev p fs = OpenFile ev p (O_WRONLY OR O_CREATE OR O_TRUNC) 438 fs"

definition Open :: "env \<Rightarrow> string \<Rightarrow> sivaFS \<Rightarrow> (error + File) \<times> sivaFS" where
  "Open ev p fs = OpenFile ev p O_RDONLY 0 fs"

definition Stat :: "env \<Rightarrow> string \<Rightarrow> sivaFS \<Rightarrow> (error + FileInfo) \<times> sivaFS" where
  "Stat ev p fs =
     (let p = normalizePath p in
      case ensureOpen ev fs of
        (Some err, fs') \<Rightarrow> (Inl err, fs')
      | (None, fs') \<Rightarrow>
          (case getIndex ev fs' of
             Inl err \<Rightarrow> (Inl err, fs')
           | Inr index \<Rightarrow>
               (case Find index p of
                  Some e \<Rightarrow> (Inr (newFileInfo e), fs')
                | None \<Rightarrow>
                    (case getDir index p of
                       Inl err \<Rightarrow> (Inl err, fs')
                     | Inr None \<Rightarrow> (Inl ErrNotExist, fs')
                     | Inr (Some stat) \<Rightarrow> (Inr stat, fs')))))"

definition ReadDir :: "env \<Rightarrow> string \<Rightarrow> sivaFS \<Rightarrow> (error + FileInfo list) \<times> sivaFS" where
  "ReadDir ev p fs =
     (let p = normalizePath p in
      case ensureOpen ev fs of
        (Some err, fs') \<Rightarrow> (Inl err, fs')
      | (None, fs') \<Rightarrow>
          (case getIndex ev fs' of
             Inl err \<Rightarrow> (Inl err, fs')
           | Inr index \<Rightarrow>
               (case listFiles index p of
                  Inl err \<Rightarrow> (Inl err, fs')
                | Inr files \<Rightarrow>
                    (case listDirs index p of
                       Inl err \<Rightarrow> (Inl err, fs')
                     | Inr dirs \<Rightarrow> (Inr (dirs @ files), fs')))))"

definition MkdirAll :: "env \<Rightarrow> string \<Rightarrow> FileMode \<Rightarrow> sivaFS \<Rightarrow> error option \<times> sivaFS" where
  "MkdirAll ev filename perm fs =
     (case ensureOpen ev fs of
        (Some err, fs') \<Rightarrow> (Some err, fs')
      | (None, fs') \<Rightarrow>
          (case getIndex ev fs' of
             Inl err \<Rightarrow> (Some err, fs')
           | Inr index \<Rightarrow>
               (case Find index filename of
                  Some e \<Rightarrow> (Some (PathError ''mkdir'' filename ENOTDIR), fs')
                | None \<Rightarrow> (None, fs'))))"

definition Remove :: "env \<Rightarrow> string \<Rightarrow> sivaFS \<Rightarrow> error option \<times> sivaFS" where
  "Remove ev p fs =
     (let p = normalizePath p in
      case ensureOpen ev fs of
        (Some err, fs') \<Rightarrow> (Some err, fs')
      | (None, fs') \<Rightarrow>
          (case getIndex ev fs' of
             Inl err \<Rightarrow> (Some err, fs')
           | Inr index \<Rightarrow>
               (case Find index p of
                  Some e \<Rightarrow>
                    WriteHeader ev \<lparr>Name = p, ModTime = now ev, Mode = 0, Flags = FlagDeleted\<rparr> fs'
                | None \<Rightarrow>
                    (case getDir index p of
                       Inl err \<Rightarrow> (Some err, fs')
                     | Inr (Some dir) \<Rightarrow> (Some (PathError ''remove'' p ENOTEMPTY), fs')
                     | Inr None \<Rightarrow> (Some ErrNotExist, fs')))))"

section \<open>Predicates for the statements\<close>

text \<open>
  A path is free of pattern characters when none of \<open>*\<close>, \<open>?\<close>, \<open>[\<close> and the backslash
  occurs in it. \<open>childOf d name\<close>: \<open>name\<close> is \<open>d\<close>, a slash and one further element (for the
  root \<open>d = []\<close>: a single element). \<open>grandchildOf d name\<close>: \<open>name\<close> is \<open>d\<close>, a slash and
  exactly two further elements. An element may be empty. \<open>dirTimes k es\<close> are the
  modification times of the entries of \<open>es\<close> whose \<open>filepath.Dir\<close> is \<open>k\<close>.
  \<open>realElem\<close> holds of the elements that \<open>Clean\<close> keeps in a rooted path.
\<close>

definition noMeta :: "string \<Rightarrow> bool" where
  "noMeta d = list_all (\<lambda>c. \<not> isMeta c) d"

definition childOf :: "string \<Rightarrow> string \<Rightarrow> bool" where
  "childOf d name =
     (if d = [] then CHR ''/'' \<notin> set name
      else take (Suc (length d)) name = d @ ''/'' \<and> CHR ''/'' \<notin> set (drop (Suc (length d)) name))"

definition grandchildOf :: "string \<Rightarrow> string \<Rightarrow> bool" where
  "grandchildOf d name =
     (let rest = (if d = [] then name else drop (Suc (length d)) name) in
      (d = [] \<or> take (Suc (length d)) name = d @ ''/'') \<and>
      CHR ''/'' \<in> set rest \<and>
      CHR ''/'' \<notin> set (tl (dropWhile (\<lambda>c. c \<noteq> CHR ''/'') rest)))"

definition dirTimes :: "string \<Rightarrow> Header list \<Rightarrow> time set" where
  "dirTimes k es = ModTime ` {e \<in> set es. Dir (Name e) = k}"

definition realElem :: "string \<Rightarrow> bool" where
  "realElem e = (e \<noteq> [] \<and> e \<noteq> ''.'' \<and> e \<noteq> ''..'' \<and> CHR ''/'' \<notin> set e)"

section \<open>Concrete sessions\<close>

text \<open>
  A collaborator that never fails, an open session over a given index, and a session
  that has not been opened yet; the examples below run the operations on them.
\<close>

definition entry :: "string \<Rightarrow> time \<Rightarrow> Header" where
  "entry n t = \<lparr>Name = n, ModTime = t, Mode = 420, Flags = 0\<rparr>"

definition quiet :: env where
  "quiet = \<lparr>now = 100, open_err = None, rw_err = None, stored = [], index_err = None,
     write_err = None, get_err = None, flush_err = None, rw_close_err = None,
     f_close_err = None\<rparr>"

definition session :: "Index \<Rightarrow> bool \<Rightarrow> sivaFS" where
  "session i busy = \<lparr>path = ''x.siva'', f = Some ''x.siva'', rw = Some i, fileWriteModeOpen = busy\<rparr>"

definition unopened :: sivaFS where
  "unopened = \<lparr>path = ''x.siva'', f = None, rw = None, fileWriteModeOpen = False\<rparr>"

section \<open>Auxiliary facts\<close>

lemma entry_simps [simp]:
  "Name (entry n t) = n" "ModTime (entry n t) = t" "Flags (entry n t) = 0" "Mode (entry n t) = 420"
  by (simp_all add: entry_def)

lemmas flag_defs = O_RDONLY_def O_WRONLY_def O_RDWR_def O_CREATE_def O_TRUNC_def O_APPEND_def

lemma create_flags [simp]:
  "(O_WRONLY OR O_CREATE OR O_TRUNC) AND O_CREATE \<noteq> 0"
  "(O_WRONLY OR O_CREATE OR O_TRUNC) AND O_TRUNC \<noteq> 0"
  "(O_WRONLY OR O_CREATE OR O_TRUNC) AND O_RDWR = 0"
  "(O_WRONLY OR O_CREATE OR O_TRUNC) AND O_WRONLY \<noteq> 0"
  "flag AND O_RDONLY = 0"
  by (simp_all add: flag_defs)

subsection \<open>Patterns built from a literal directory\<close>

lemma scanPattern_lit:
  "noMeta lit \<Longrightarrow> scanPattern (lit @ rest) = map_option ((@) (map Lit lit)) (scanPattern rest)"
proof (induction lit)
  case Nil
  show ?case by (simp add: option.map_ident)
next
  case (Cons c lit)
  then have "\<not> isMeta c" and "noMeta lit" by (simp_all add: noMeta_def)
  with Cons.IH show ?case
    by (simp add: isMeta_def option.map_comp comp_def)
qed

lemma globMatch_lit:
  "globMatch (map Lit lit @ ts) s = (take (length lit) s = lit \<and> globMatch ts (drop (length lit) s))"
proof (induction lit arbitrary: s)
  case Nil
  show ?case by simp
next
  case (Cons c lit)
  show ?case by (cases s) (auto simp: Cons.IH)
qed

lemma globMatch_Star_Nil [simp]: "globMatch (Star # ts) [] = globMatch ts []"
  by simp

lemma globMatch_Star_Cons [simp]:
  "globMatch (Star # ts) (c # cs) =
     (globMatch ts (c # cs) \<or> c \<noteq> CHR ''/'' \<and> globMatch (Star # ts) cs)"
  by simp

declare globMatch.simps(2) [simp del]

lemma globMatch_star: "globMatch [Star] s = (CHR ''/'' \<notin> set s)"
  by (induction s) auto

lemma globMatch_star_slash_star:
  "globMatch [Star, Lit CHR ''/'', Star] s =
     (CHR ''/'' \<in> set s \<and> CHR ''/'' \<notin> set (tl (dropWhile (\<lambda>c. c \<noteq> CHR ''/'') s)))"
proof (induction s)
  case Nil
  show ?case by simp
next
  case (Cons c s)
  show ?case
  proof (cases "c = CHR ''/''")
    case True
    then show ?thesis by (simp add: globMatch_star)
  next
    case False
    then show ?thesis using Cons.IH by simp
  qed
qed

lemma Match_child:
  assumes "noMeta d"
  shows "Match ((if d = [] then [] else d @ ''/'') @ ''*'') name = Inr (childOf d name)"
proof (cases "d = []")
  case True
  then show ?thesis by (simp add: Match_def childOf_def globMatch_star)
next
  case False
  have m: "noMeta (d @ ''/'')" using assms by (simp add: noMeta_def isMeta_def)
  have "scanPattern ((d @ ''/'') @ ''*'') = Some (map Lit (d @ ''/'') @ [Star])"
    using scanPattern_lit [OF m, of "''*''"] by simp
  then show ?thesis
    using False globMatch_lit [of "d @ ''/''" "[Star]" name]
    by (simp add: Match_def childOf_def globMatch_star)
qed

lemma Match_grandchild:
  assumes "noMeta d"
  shows "Match ((if d = [] then [] else d @ ''/'') @ ''*/*'') name = Inr (grandchildOf d name)"
proof (cases "d = []")
  case True
  then show ?thesis by (simp add: Match_def grandchildOf_def globMatch_star_slash_star)
next
  case False
  have m: "noMeta (d @ ''/'')" using assms by (simp add: noMeta_def isMeta_def)
  have "scanPattern ((d @ ''/'') @ ''*/*'') = Some (map Lit (d @ ''/'') @ [Star, Lit CHR ''/'', Star])"
    using scanPattern_lit [OF m, of "''*/*''"] by simp
  then show ?thesis
    using False globMatch_lit [of "d @ ''/''" "[Star, Lit CHR ''/'', Star]" name]
    by (simp add: Match_def grandchildOf_def globMatch_star_slash_star Let_def)
qed

lemma Glob_filter:
  assumes "\<And>name. Match pat name = Inr (P name)"
  shows "Glob i pat = Inr (filter (\<lambda>e. P (Name e)) i)"
  by (induction i) (simp_all add: assms)

lemma Glob_children:
  assumes "noMeta d"
  shows "Glob i ((if d = [] then [] else d @ ''/'') @ ''*'') = Inr (filter (\<lambda>e. childOf d (Name e)) i)"
  by (rule Glob_filter) (rule Match_child [OF assms])

lemma Glob_grandchildren:
  assumes "noMeta d"
  shows "Glob i ((if d = [] then [] else d @ ''/'') @ ''*/*'') = Inr (filter (\<lambda>e. grandchildOf d (Name e)) i)"
  by (rule Glob_filter) (rule Match_grandchild [OF assms])

lemma Glob_error: "Glob i pat = Inl err \<Longrightarrow> err = ErrBadPattern"
  by (induction i) (auto simp: Match_def split: option.splits sum.splits)

subsection \<open>Normalized paths\<close>

lemma splitPath_nonempty [simp]: "splitPath s \<noteq> []"
  by (induction s) (auto split: list.splits)

lemma splitPath_noslash: "e \<in> set (splitPath s) \<Longrightarrow> CHR ''/'' \<notin> set e"
  by (induction s arbitrary: e) (auto split: list.splits if_splits)

lemma splitPath_append: "splitPath (a @ CHR ''/'' # b) = splitPath a @ splitPath b"
  by (induction a) (auto split: list.splits)

lemma splitPath_single: "CHR ''/'' \<notin> set s \<Longrightarrow> splitPath s = [s]"
  by (induction s) auto

lemma splitPath_joinPath:
  "cs \<noteq> [] \<Longrightarrow> \<forall>e\<in>set cs. CHR ''/'' \<notin> set e \<Longrightarrow> splitPath (joinPath cs) = cs"
proof (induction cs rule: joinPath.induct)
  case 1
  then show ?case by simp
next
  case (2 x)
  then show ?case by (simp add: splitPath_single)
next
  case (3 x y ys)
  then show ?case by (simp add: splitPath_append splitPath_single)
qed

lemma joinPath_snoc: "cs \<noteq> [] \<Longrightarrow> joinPath (cs @ [x]) = joinPath cs @ CHR ''/'' # x"
  by (induction cs rule: joinPath.induct) auto

lemma cleanStep_real: "realElem e \<Longrightarrow> cleanStep r out e = e # out"
  by (simp add: cleanStep_def realElem_def)

lemma foldl_cleanStep_real:
  "list_all realElem cs \<Longrightarrow> foldl (cleanStep r) out cs = rev cs @ out"
  by (induction cs arbitrary: out) (simp_all add: cleanStep_real)

lemma cleanStep_rooted_keeps_real:
  "list_all realElem out \<Longrightarrow> CHR ''/'' \<notin> set e \<Longrightarrow> list_all realElem (cleanStep True out e)"
  by (cases out) (auto simp: cleanStep_def realElem_def)

lemma foldl_cleanStep_rooted_real:
  "list_all realElem out \<Longrightarrow> \<forall>e\<in>set es. CHR ''/'' \<notin> set e \<Longrightarrow>
     list_all realElem (foldl (cleanStep True) out es)"
  by (induction es arbitrary: out) (simp_all add: cleanStep_rooted_keeps_real)

lemma normalizePath_elems:
  "normalizePath p = joinPath (rev (foldl (cleanStep True) [] (splitPath p)))"
  by (simp add: normalizePath_def Join_def Clean_def removeLeadingSlash_def cleanStep_def Let_def)

lemma normalizePath_real:
  "\<exists>cs. list_all realElem cs \<and> normalizePath p = joinPath cs"
proof -
  have "list_all realElem (foldl (cleanStep True) [] (splitPath p))"
    by (rule foldl_cleanStep_rooted_real) (simp_all add: splitPath_noslash)
  then have "list_all realElem (rev (foldl (cleanStep True) [] (splitPath p)))"
    by (simp add: list_all_iff)
  then show ?thesis using normalizePath_elems by blast
qed

lemma realElem_ends:
  "realElem x \<Longrightarrow> x \<noteq> [] \<and> hd x \<noteq> CHR ''/'' \<and> last x \<noteq> CHR ''/''"
  unfolding realElem_def by (metis hd_in_set last_in_set)

lemma joinPath_real_hd:
  "list_all realElem cs \<Longrightarrow> cs \<noteq> [] \<Longrightarrow> joinPath cs \<noteq> [] \<and> hd (joinPath cs) \<noteq> CHR ''/''"
proof (induction cs rule: joinPath.induct)
  case 1
  then show ?case by simp
next
  case (2 x)
  then show ?case using realElem_ends [of x] by simp
next
  case (3 x y ys)
  then show ?case using realElem_ends [of x] by (simp add: hd_append)
qed

lemma joinPath_real_last:
  "list_all realElem cs \<Longrightarrow> cs \<noteq> [] \<Longrightarrow> last (joinPath cs) \<noteq> CHR ''/''"
proof (induction cs rule: joinPath.induct)
  case 1
  then show ?case by simp
next
  case (2 x)
  then show ?case using realElem_ends [of x] by simp
next
  case (3 x y ys)
  then have "joinPath (y # ys) \<noteq> []" using joinPath_real_hd [of "y # ys"] by simp
  with 3 show ?case by simp
qed

lemma Clean_real_slash:
  assumes "list_all realElem cs" and "cs \<noteq> []"
  shows "Clean (joinPath cs @ ''/'') = joinPath cs"
proof -
  have ns: "\<forall>e\<in>set cs. CHR ''/'' \<notin> set e" using assms(1) by (auto simp: list_all_iff realElem_def)
  have sp: "splitPath (joinPath cs @ ''/'') = cs @ [[]]"
    using splitPath_append [of "joinPath cs" "[]"] splitPath_joinPath [OF assms(2) ns] by simp
  have "foldl (cleanStep False) [] (cs @ [[]]) = rev cs"
    using foldl_cleanStep_real [OF assms(1), of False "[]"] by (simp add: cleanStep_def)
  then show ?thesis
    using joinPath_real_hd [OF assms] sp by (simp add: Clean_def Let_def)
qed

lemma Join_real_star:
  assumes "list_all realElem cs" and "cs \<noteq> []"
  shows "Join [joinPath cs @ ''/'', ''*''] = joinPath cs @ ''/*''"
proof -
  have ns: "\<forall>e\<in>set cs. CHR ''/'' \<notin> set e" using assms(1) by (auto simp: list_all_iff realElem_def)
  have "splitPath (joinPath cs @ CHR ''/'' # ''/*'') = splitPath (joinPath cs) @ splitPath ''/*''"
    by (rule splitPath_append)
  then have sp: "splitPath (joinPath cs @ ''//*'') = cs @ [[], ''*'']"
    using splitPath_joinPath [OF assms(2) ns] by simp
  have "foldl (cleanStep False) [] (cs @ [[], ''*'']) = ''*'' # rev cs"
    using foldl_cleanStep_real [OF assms(1), of False "[]"] by (simp add: cleanStep_def)
  then show ?thesis
    using joinPath_real_hd [OF assms] sp assms(2)
    by (simp add: Join_def Clean_def Let_def joinPath_snoc)
qed

lemma addTrailingSlash_real:
  assumes "list_all realElem cs"
  shows "addTrailingSlash (joinPath cs) = (if cs = [] then [] else joinPath cs @ ''/'')"
  using joinPath_real_hd [OF assms] joinPath_real_last [OF assms]
  by (simp add: addTrailingSlash_def)

lemma dirPrefix_normalized:
  "addTrailingSlash (normalizePath p) = (if normalizePath p = [] then [] else normalizePath p @ ''/'')"
proof -
  obtain cs where cs: "list_all realElem cs" "normalizePath p = joinPath cs"
    using normalizePath_real by blast
  show ?thesis
    using addTrailingSlash_real [OF cs(1)] joinPath_real_hd [OF cs(1)] cs(2) by auto
qed

subsection \<open>getDir, listFiles and listDirs on a normalized literal path\<close>

lemma getDir_normalized:
  assumes "noMeta (normalizePath p)"
  shows "getDir i (normalizePath p) =
     Inr (if filter (\<lambda>e. childOf (normalizePath p) (Name e)) i = [] then None
          else Some (newDirFileInfo (if normalizePath p = [] then ''.'' else normalizePath p)
                 (latest 0 (filter (\<lambda>e. childOf (normalizePath p) (Name e)) i))))"
proof -
  obtain cs where cs: "list_all realElem cs" "normalizePath p = joinPath cs"
    using normalizePath_real by blast
  show ?thesis
  proof (cases "cs = []")
    case True
    then have d: "normalizePath p = []" using cs by simp
    have j: "Join [[], ''*''] = ''*''"
      by (simp add: Join_def Clean_def cleanStep_def Let_def)
    have c: "Clean [] = ''.''" by (simp add: Clean_def)
    have g: "Glob i ''*'' = Inr (filter (\<lambda>e. childOf [] (Name e)) i)"
      using Glob_children [of "[]" i] by (simp add: noMeta_def)
    show ?thesis by (simp add: getDir_def addTrailingSlash_def d j c g Let_def)
  next
    case False
    have ne: "normalizePath p \<noteq> []" using joinPath_real_hd [OF cs(1) False] cs(2) by simp
    have a: "addTrailingSlash (normalizePath p) = normalizePath p @ ''/''"
      using dirPrefix_normalized [of p] ne by simp
    have j: "Join [normalizePath p @ ''/'', ''*''] = normalizePath p @ ''/*''"
      using Join_real_star [OF cs(1) False] cs(2) by simp
    have c: "Clean (normalizePath p @ ''/'') = normalizePath p"
      using Clean_real_slash [OF cs(1) False] cs(2) by simp
    have g: "Glob i (normalizePath p @ ''/*'') = Inr (filter (\<lambda>e. childOf (normalizePath p) (Name e)) i)"
      using Glob_children [OF assms, of i] ne by simp
    show ?thesis by (simp add: getDir_def a j c g ne Let_def)
  qed
qed

lemma getDir_error: "getDir i d = Inl err \<Longrightarrow> err = ErrBadPattern"
  by (auto simp: getDir_def Let_def split: sum.splits if_splits dest: Glob_error)

lemma listFiles_normalized:
  assumes "noMeta (normalizePath p)"
  shows "listFiles i (normalizePath p) =
     Inr (map newFileInfo (filter (\<lambda>e. childOf (normalizePath p) (Name e)) i))"
  using Glob_children [OF assms, of i]
  by (simp add: listFiles_def dirPrefix_normalized Let_def)

lemma listDirs_normalized:
  assumes "noMeta (normalizePath p)"
  shows "listDirs i (normalizePath p) =
     Inr (map (\<lambda>(dir, mt). newDirFileInfo dir mt)
            (foldl dirsStep [] (filter (\<lambda>e. grandchildOf (normalizePath p) (Name e)) i)))"
  using Glob_grandchildren [OF assms, of i]
  by (simp add: listDirs_def dirPrefix_normalized Let_def)

lemma filter_empty_iff_children:
  "(filter (\<lambda>e. childOf d (Name e)) i = []) = (\<not> (\<exists>e\<in>set i. childOf d (Name e)))"
  by (auto simp: filter_empty_conv)

subsection \<open>The map built by listDirs\<close>

lemma map_of_retime:
  "map_of (map (\<lambda>(k, v). if k = d then (k, t) else (k, v)) xs) k' =
     (if k' = d then map_option (\<lambda>_. t) (map_of xs d) else map_of xs k')"
  by (induction xs) auto

lemma map_fst_retime:
  "map (fst \<circ> (\<lambda>(k, v). if k = d then (k, t) else (k, v))) xs = map fst xs"
  by (induction xs) auto

lemma dirsStep_map_of:
  "map_of (dirsStep dirs e) k =
     (if k = Dir (Name e)
      then Some (case map_of dirs k of None \<Rightarrow> ModTime e | Some t \<Rightarrow> max t (ModTime e))
      else map_of dirs k)"
  by (auto simp: dirsStep_def Let_def map_of_retime map_add_def split: option.splits)

lemma dirsStep_distinct:
  "distinct (map fst dirs) \<Longrightarrow> distinct (map fst (dirsStep dirs e))"
  by (auto simp: dirsStep_def Let_def map_fst_retime map_of_eq_None_iff split: option.splits)

lemma foldl_dirsStep_distinct:
  "distinct (map fst acc) \<Longrightarrow> distinct (map fst (foldl dirsStep acc es))"
  by (induction es arbitrary: acc) (simp_all add: dirsStep_distinct)

lemma dirTimes_Nil [simp]: "dirTimes k [] = {}"
  by (simp add: dirTimes_def)

lemma dirTimes_Cons [simp]:
  "dirTimes k (e # es) = (if Dir (Name e) = k then insert (ModTime e) (dirTimes k es) else dirTimes k es)"
  by (auto simp: dirTimes_def)

lemma finite_dirTimes [simp]: "finite (dirTimes k es)"
  by (simp add: dirTimes_def)

lemma foldl_dirsStep_map_of:
  "map_of (foldl dirsStep acc es) k =
     (case map_of acc k of
        None \<Rightarrow> (if dirTimes k es = {} then None else Some (Max (dirTimes k es)))
      | Some t \<Rightarrow> Some (Max (insert t (dirTimes k es))))"
proof (induction es arbitrary: acc)
  case Nil
  show ?case by (simp split: option.splits)
next
  case (Cons e es)
  show ?case
  proof (cases "k = Dir (Name e)")
    case False
    then have "Dir (Name e) \<noteq> k" by auto
    with False show ?thesis
      by (simp add: Cons.IH dirsStep_map_of cong: option.case_cong)
  next
    case True
    then have ek: "Dir (Name e) = k" by simp
    have step: "map_of (dirsStep acc e) k =
        Some (case map_of acc k of None \<Rightarrow> ModTime e | Some t \<Rightarrow> max t (ModTime e))"
      using dirsStep_map_of [of acc e k] ek by simp
    show ?thesis
    proof (cases "map_of acc k")
      case None
      then show ?thesis using ek step
        by (simp add: Cons.IH)
    next
      case (Some t)
      have "Max (insert (max t (ModTime e)) (dirTimes k es)) = Max (insert t (insert (ModTime e) (dirTimes k es)))"
        by (cases "dirTimes k es = {}") (simp_all add: max.assoc)
      then show ?thesis using ek step Some
        by (simp add: Cons.IH)
    qed
  qed
qed

lemma foldl_dirsStep_set:
  "((k, t) \<in> set (foldl dirsStep [] es)) = (dirTimes k es \<noteq> {} \<and> t = Max (dirTimes k es))"
proof -
  have "distinct (map fst (foldl dirsStep [] es))"
    by (rule foldl_dirsStep_distinct) simp
  then have "((k, t) \<in> set (foldl dirsStep [] es)) = (map_of (foldl dirsStep [] es) k = Some t)"
    by simp
  then show ?thesis by (auto simp: foldl_dirsStep_map_of)
qed

section \<open>C1: one writer at a time\<close>

text \<open>
  C1, as stated, fails: on an open session whose \<open>fileWriteModeOpen\<close> is set,
  \<open>OpenFile\<close> with \<open>O_CREATE\<close> but without \<open>O_TRUNC\<close> returns \<open>ErrNotSupported\<close>, since
  that test comes first.
\<close>

theorem OpenFile_busy_without_trunc_counterexample:
  "fst (OpenFile quiet ''x'' (O_WRONLY OR O_CREATE) 438 (session [] True)) = Inl ErrNotSupported"
  by (simp add: OpenFile_def flag_defs)

text \<open>
  C1, amended. On an open session whose \<open>fileWriteModeOpen\<close> is set, every \<open>OpenFile\<close>
  with both \<open>O_CREATE\<close> and \<open>O_TRUNC\<close> returns \<open>ErrFileWriteModeAlreadyOpen\<close> and leaves
  the session, and so the index, unchanged. When a handle whose flag has \<open>O_WRONLY\<close>
  (as every handle of \<open>Create\<close> has) is closed while the session is open, the flag is
  cleared, and a following \<open>Create\<close> whose header write succeeds returns a handle.
\<close>

theorem OpenFile_writer_busy:
  assumes "rw fs \<noteq> None"
  shows "(fileWriteModeOpen fs \<longrightarrow> flag AND O_CREATE \<noteq> 0 \<longrightarrow> flag AND O_TRUNC \<noteq> 0 \<longrightarrow>
            OpenFile ev p flag mode fs = (Inl ErrFileWriteModeAlreadyOpen, fs)) \<and>
         (hflag AND O_WRONLY \<noteq> 0 \<longrightarrow> write_err ev2 = None \<longrightarrow>
            \<not> fileWriteModeOpen (snd (closeFunc hflag ev1 fs)) \<and>
            fst (Create ev2 p2 (snd (closeFunc hflag ev1 fs)))
              = Inr (newFile (normalizePath p2) (O_WRONLY OR O_CREATE OR O_TRUNC)))"
  using assms
  by (auto simp: createFile_def WriteHeader_def Create_def OpenFile_def ensureOpen_def Let_def closeFunc_def)

theorem OpenFile_writer_busy_witness:
  "rw (session [] True) \<noteq> None \<and> fileWriteModeOpen (session [] True) \<and>
   OpenFile quiet ''b'' (O_WRONLY OR O_CREATE OR O_TRUNC) 438 (session [] True)
     = (Inl ErrFileWriteModeAlreadyOpen, session [] True) \<and>
   \<not> fileWriteModeOpen (snd (closeFunc (O_WRONLY OR O_CREATE OR O_TRUNC) quiet (session [] True))) \<and>
   fst (Create quiet ''b'' (snd (closeFunc (O_WRONLY OR O_CREATE OR O_TRUNC) quiet (session [] True))))
     = Inr (newFile ''b'' (O_WRONLY OR O_CREATE OR O_TRUNC))"
proof -
  have a: "rw (session [] True) \<noteq> None" by (simp add: session_def)
  have b: "fileWriteModeOpen (session [] True)" by (simp add: session_def)
  have w: "write_err quiet = None" by (simp add: quiet_def)
  have n: "normalizePath ''b'' = ''b''" by code_simp
  show ?thesis
    using OpenFile_writer_busy [OF a, of "O_WRONLY OR O_CREATE OR O_TRUNC" quiet "''b''" 438 "O_WRONLY OR O_CREATE OR O_TRUNC" quiet quiet "''b''"] a b w n
    by simp
qed

section \<open>C2: creation and synthetic directories\<close>

text \<open>
  C2, as stated, fails: \<open>Create\<close> of \<open>a\<close> succeeds while the entry \<open>a/b\<close> exists, and
  \<open>Create\<close> of \<open>a/b\<close> succeeds while the entry \<open>a\<close> exists.
\<close>

theorem Create_path_conflict_counterexample:
  "fst (Create quiet ''a'' (session [entry ''a/b'' 5] False)) = Inr (newFile ''a'' (O_WRONLY OR O_CREATE OR O_TRUNC)) \<and>
   fst (Create quiet ''a/b'' (session [entry ''a'' 5] False)) = Inr (newFile ''a/b'' (O_WRONLY OR O_CREATE OR O_TRUNC))"
proof -
  have n: "normalizePath ''a'' = ''a''" "normalizePath ''a/b'' = ''a/b''" by code_simp+
  show ?thesis
    by (simp add: n createFile_def WriteHeader_def Create_def OpenFile_def ensureOpen_def Let_def session_def quiet_def)
qed

text \<open>
  C2, amended. \<open>createFile\<close> does not consult the index: on an open session with no
  write handle outstanding, \<open>Create\<close> appends the header of the normalized path and
  returns a handle whenever the header write succeeds, whatever entries lie below the path
  or are named like one of its directory prefixes.
\<close>

theorem Create_ignores_path_conflicts:
  assumes "rw fs = Some i" and "\<not> fileWriteModeOpen fs" and "write_err ev = None"
  shows "Create ev p fs =
     (Inr (newFile (normalizePath p) (O_WRONLY OR O_CREATE OR O_TRUNC)),
      fs\<lparr>rw := Some (i @ [\<lparr>Name = normalizePath p, ModTime = now ev, Mode = 438, Flags = 0\<rparr>]),
         fileWriteModeOpen := True\<rparr>)"
  using assms
  by (simp add: createFile_def WriteHeader_def Create_def OpenFile_def ensureOpen_def Let_def)

theorem Create_ignores_path_conflicts_witness:
  "rw (session [entry ''a/b'' 5] False) = Some [entry ''a/b'' 5] \<and>
   \<not> fileWriteModeOpen (session [entry ''a/b'' 5] False) \<and> write_err quiet = None \<and>
   Create quiet ''a'' (session [entry ''a/b'' 5] False) =
     (Inr (newFile ''a'' (O_WRONLY OR O_CREATE OR O_TRUNC)),
      session [entry ''a/b'' 5, \<lparr>Name = ''a'', ModTime = 100, Mode = 438, Flags = 0\<rparr>] True)"
proof -
  have a: "rw (session [entry ''a/b'' 5] False) = Some [entry ''a/b'' 5]" by (simp add: session_def)
  have b: "\<not> fileWriteModeOpen (session [entry ''a/b'' 5] False)" by (simp add: session_def)
  have w: "write_err quiet = None" by (simp add: quiet_def)
  have n: "normalizePath ''a'' = ''a''" by code_simp
  show ?thesis
    using Create_ignores_path_conflicts [OF a b w, of "''a''"] a b w n
    by (simp add: session_def quiet_def)
qed

section \<open>C3: Stat of a synthetic directory\<close>

text \<open>
  C3, as stated, fails: with the single entry \<open>a/b/c\<close> in the archive, \<open>a\<close> is
  normalized, no entry is named \<open>a\<close>, the entry lies below \<open>a\<close>, and \<open>Stat\<close> of \<open>a\<close>
  returns \<open>ErrNotExist\<close>: the pattern \<open>a/*\<close> of \<open>getDir\<close> matches one further element
  only.
\<close>

theorem Stat_nested_entry_counterexample:
  "fst (Stat quiet ''a'' (session [entry ''a/b/c'' 5] False)) = Inl ErrNotExist \<and>
   normalizePath ''a'' = ''a'' \<and>
   Find (Filter [entry ''a/b/c'' 5]) ''a'' = None \<and>
   Filter [entry ''a/b/c'' 5] = [entry ''a/b/c'' 5]"
  by code_simp

text \<open>
  C3, amended. For a normalized path \<open>d\<close> free of pattern characters and not the name
  of an entry, on an open session whose index can be read: \<open>Stat\<close> returns a synthetic
  directory if and only if some entry of the filtered index is an immediate child of \<open>d\<close>
  (its name is \<open>d\<close>, a slash and one further element; for the root, a single element),
  and \<open>ErrNotExist\<close> otherwise. The directory is named \<open>d\<close> (\<open>.\<close> for the root) and its
  time is the latest of the zero time and the children's times.
\<close>

theorem Stat_synthetic_directory:
  assumes "rw fs = Some i" and "index_err ev = None"
    and "normalizePath d = d" and "noMeta d" and "Find (Filter i) d = None"
  shows "Stat ev d fs =
     (if \<exists>e\<in>set (Filter i). childOf d (Name e)
      then Inr (newDirFileInfo (if d = [] then ''.'' else d)
                 (latest 0 (filter (\<lambda>e. childOf d (Name e)) (Filter i))))
      else Inl ErrNotExist, fs)"
proof -
  have n: "noMeta (normalizePath d)" using assms(3,4) by simp
  show ?thesis
    using assms getDir_normalized [OF n, of "Filter i"]
    by (simp add: Stat_def ensureOpen_def getIndex_def filter_empty_iff_children Let_def)
qed

theorem Stat_synthetic_directory_witness:
  "rw (session [entry ''a/b'' 5] False) = Some [entry ''a/b'' 5] \<and>
   index_err quiet = None \<and> normalizePath ''a'' = ''a'' \<and> noMeta ''a'' \<and>
   Find (Filter [entry ''a/b'' 5]) ''a'' = None \<and>
   Stat quiet ''a'' (session [entry ''a/b'' 5] False)
     = (Inr (newDirFileInfo ''a'' 5), session [entry ''a/b'' 5] False)"
proof -
  have a: "rw (session [entry ''a/b'' 5] False) = Some [entry ''a/b'' 5]" by (simp add: session_def)
  have b: "index_err quiet = None" by (simp add: quiet_def)
  have c: "normalizePath ''a'' = ''a''" by code_simp
  have d: "noMeta ''a''" by code_simp
  have e: "Find (Filter [entry ''a/b'' 5]) ''a'' = None" by code_simp
  have v: "(if \<exists>e\<in>set (Filter [entry ''a/b'' 5]). childOf ''a'' (Name e)
      then Inr (newDirFileInfo (if ''a'' = [] then ''.'' else ''a'')
                 (latest 0 (filter (\<lambda>e. childOf ''a'' (Name e)) (Filter [entry ''a/b'' 5]))))
      else Inl ErrNotExist) = Inr (newDirFileInfo ''a'' 5)"
    by code_simp
  have "Stat quiet ''a'' (session [entry ''a/b'' 5] False)
     = (Inr (newDirFileInfo ''a'' 5), session [entry ''a/b'' 5] False)"
    using Stat_synthetic_directory [OF a b c d e] unfolding v .
  with a b c d e show ?thesis by blast
qed

section \<open>C4: Remove\<close>

text \<open>
  C4, as stated, fails: with the single entry \<open>a/b/c\<close> in the archive, an entry is
  nested beneath \<open>a\<close>, and \<open>Remove\<close> of \<open>a\<close> returns \<open>ErrNotExist\<close>, not
  \<open>ENOTEMPTY\<close>.
\<close>

theorem Remove_nested_entry_counterexample:
  "fst (Remove quiet ''a'' (session [entry ''a/b/c'' 5] False)) = Some ErrNotExist \<and>
   Find (Filter [entry ''a/b/c'' 5]) ''a'' = None \<and>
   Filter [entry ''a/b/c'' 5] = [entry ''a/b/c'' 5]"
  by code_simp

text \<open>
  C4, amended. For a path whose normalized form \<open>d\<close> is free of pattern characters,
  on an open session whose index can be read: if the filtered index has an entry named
  \<open>d\<close>, \<open>Remove\<close> appends the header of \<open>d\<close> with mode 0 and \<open>FlagDeleted\<close> and returns
  what \<open>WriteHeader\<close> returns (no error when the write succeeds); otherwise, if some
  entry is an immediate child of \<open>d\<close>, it returns \<open>ENOTEMPTY\<close> for \<open>d\<close>; otherwise
  \<open>ErrNotExist\<close>. The session is changed in the first case only.
\<close>

theorem Remove_three_cases:
  assumes "rw fs = Some i" and "index_err ev = None" and "noMeta (normalizePath p)"
  shows "Remove ev p fs =
     (case Find (Filter i) (normalizePath p) of
        Some e \<Rightarrow>
          (case write_err ev of
             None \<Rightarrow> (None, fs\<lparr>rw := Some (i @ [\<lparr>Name = normalizePath p, ModTime = now ev,
                                                  Mode = 0, Flags = FlagDeleted\<rparr>])\<rparr>)
           | Some n \<Rightarrow> (Some (External n), fs))
      | None \<Rightarrow>
          (if \<exists>e\<in>set (Filter i). childOf (normalizePath p) (Name e)
           then Some (PathError ''remove'' (normalizePath p) ENOTEMPTY)
           else Some ErrNotExist, fs))"
  using assms(1,2) getDir_normalized [OF assms(3), of "Filter i"]
  by (simp add: Remove_def ensureOpen_def getIndex_def WriteHeader_def
        filter_empty_iff_children Let_def split: option.splits)

theorem Remove_three_cases_witness:
  "rw (session [entry ''a'' 5] False) = Some [entry ''a'' 5] \<and> index_err quiet = None \<and>
   noMeta (normalizePath ''a'') \<and>
   Remove quiet ''a'' (session [entry ''a'' 5] False)
     = (None, session [entry ''a'' 5, \<lparr>Name = ''a'', ModTime = 100, Mode = 0, Flags = FlagDeleted\<rparr>] False) \<and>
   Remove quiet ''a'' (session [entry ''a/b'' 5] False)
     = (Some (PathError ''remove'' ''a'' ENOTEMPTY), session [entry ''a/b'' 5] False) \<and>
   Remove quiet ''a'' (session [] False) = (Some ErrNotExist, session [] False)"
proof -
  have b: "index_err quiet = None" by (simp add: quiet_def)
  have c: "noMeta (normalizePath ''a'')" by code_simp
  have a1: "rw (session [entry ''a'' 5] False) = Some [entry ''a'' 5]" by (simp add: session_def)
  have a2: "rw (session [entry ''a/b'' 5] False) = Some [entry ''a/b'' 5]" by (simp add: session_def)
  have a3: "rw (session [] False) = Some []" by (simp add: session_def)
  have v1: "(case Find (Filter [entry ''a'' 5]) (normalizePath ''a'') of
        Some e \<Rightarrow>
          (case write_err quiet of
             None \<Rightarrow> (None, (session [entry ''a'' 5] False)\<lparr>rw := Some ([entry ''a'' 5] @ [\<lparr>Name = normalizePath ''a'', ModTime = now quiet,
                                                  Mode = 0, Flags = FlagDeleted\<rparr>])\<rparr>)
           | Some n \<Rightarrow> (Some (External n), session [entry ''a'' 5] False))
      | None \<Rightarrow>
          (if \<exists>e\<in>set (Filter [entry ''a'' 5]). childOf (normalizePath ''a'') (Name e)
           then Some (PathError ''remove'' (normalizePath ''a'') ENOTEMPTY)
           else Some ErrNotExist, session [entry ''a'' 5] False))
     = (None, session [entry ''a'' 5, \<lparr>Name = ''a'', ModTime = 100, Mode = 0, Flags = FlagDeleted\<rparr>] False)"
    by code_simp
  have v2: "(case Find (Filter [entry ''a/b'' 5]) (normalizePath ''a'') of
        Some e \<Rightarrow>
          (case write_err quiet of
             None \<Rightarrow> (None, (session [entry ''a/b'' 5] False)\<lparr>rw := Some ([entry ''a/b'' 5] @ [\<lparr>Name = normalizePath ''a'', ModTime = now quiet,
                                                  Mode = 0, Flags = FlagDeleted\<rparr>])\<rparr>)
           | Some n \<Rightarrow> (Some (External n), session [entry ''a/b'' 5] False))
      | None \<Rightarrow>
          (if \<exists>e\<in>set (Filter [entry ''a/b'' 5]). childOf (normalizePath ''a'') (Name e)
           then Some (PathError ''remove'' (normalizePath ''a'') ENOTEMPTY)
           else Some ErrNotExist, session [entry ''a/b'' 5] False))
     = (Some (PathError ''remove'' ''a'' ENOTEMPTY), session [entry ''a/b'' 5] False)"
    by code_simp
  have v3: "(case Find (Filter []) (normalizePath ''a'') of
        Some e \<Rightarrow>
          (case write_err quiet of
             None \<Rightarrow> (None, (session [] False)\<lparr>rw := Some ([] @ [\<lparr>Name = normalizePath ''a'', ModTime = now quiet,
                                                  Mode = 0, Flags = FlagDeleted\<rparr>])\<rparr>)
           | Some n \<Rightarrow> (Some (External n), session [] False))
      | None \<Rightarrow>
          (if \<exists>e\<in>set (Filter []). childOf (normalizePath ''a'') (Name e)
           then Some (PathError ''remove'' (normalizePath ''a'') ENOTEMPTY)
           else Some ErrNotExist, session [] False))
     = (Some ErrNotExist, session [] False)"
    by code_simp
  note r1 = trans [OF Remove_three_cases [OF a1 b c] v1]
  note r2 = trans [OF Remove_three_cases [OF a2 b c] v2]
  note r3 = trans [OF Remove_three_cases [OF a3 b c] v3]
  from a1 b c r1 r2 r3 show ?thesis by blast
qed

section \<open>C5: Stat looks for the entry first\<close>

text \<open>
  C5, as stated, fails in both directions. With the single entry \<open>x/y/z\<close> in the
  archive, no entry is named \<open>x\<close> and the entry lies below \<open>x\<close>, yet \<open>Stat\<close> of \<open>x\<close>
  returns \<open>ErrNotExist\<close>: \<open>getDir\<close> looks one element below the path only. With the
  single entry \<open>a\<close> in the archive, neither an entry nor a directory is found at \<open>[\<close>,
  yet \<open>Stat\<close> of \<open>[\<close> returns \<open>ErrBadPattern\<close>, not \<open>ErrNotExist\<close>.
\<close>

theorem Stat_not_found_counterexample:
  "fst (Stat quiet ''x'' (session [entry ''x/y/z'' 5] False)) = Inl ErrNotExist \<and>
   Filter [entry ''x/y/z'' 5] = [entry ''x/y/z'' 5] \<and>
   take 2 (Name (entry ''x/y/z'' 5)) = normalizePath ''x'' @ ''/'' \<and>
   fst (Stat quiet ''['' (session [entry ''a'' 5] False)) = Inl ErrBadPattern \<and>
   Find (Filter [entry ''a'' 5]) (normalizePath ''['') = None \<and>
   getDir (Filter [entry ''a'' 5]) (normalizePath ''['') = Inl ErrBadPattern"
  by code_simp

text \<open>
  C5, amended. On an open session whose index can be read, for every path \<open>p\<close>: when
  the filtered index has an entry named like the normalized \<open>p\<close>, \<open>Stat\<close> returns the
  information of that entry, whatever lies below \<open>p\<close>. When the normalized \<open>p\<close> is free
  of pattern characters, \<open>Stat\<close> returns \<open>ErrNotExist\<close> exactly when no entry is named
  like the normalized \<open>p\<close> and no entry is an immediate child of it (its name is the
  normalized \<open>p\<close>, a slash and one further element; for the root, a single element);
  entries that lie deeper do not count.
\<close>

theorem Stat_exact_match_first:
  assumes "rw fs = Some i" and "index_err ev = None"
  shows "(\<forall>e. Find (Filter i) (normalizePath p) = Some e \<longrightarrow>
            Stat ev p fs = (Inr (newFileInfo e), fs)) \<and>
         (noMeta (normalizePath p) \<longrightarrow>
            (fst (Stat ev p fs) = Inl ErrNotExist \<longleftrightarrow>
               Find (Filter i) (normalizePath p) = None \<and>
               \<not> (\<exists>e\<in>set (Filter i). childOf (normalizePath p) (Name e))))"
proof (intro conjI allI impI)
  fix e assume "Find (Filter i) (normalizePath p) = Some e"
  then show "Stat ev p fs = (Inr (newFileInfo e), fs)"
    using assms by (simp add: Stat_def ensureOpen_def getIndex_def Let_def)
next
  assume n: "noMeta (normalizePath p)"
  show "fst (Stat ev p fs) = Inl ErrNotExist \<longleftrightarrow>
          Find (Filter i) (normalizePath p) = None \<and>
          \<not> (\<exists>e\<in>set (Filter i). childOf (normalizePath p) (Name e))"
    using assms getDir_normalized [OF n, of "Filter i"]
    by (auto simp: Stat_def ensureOpen_def getIndex_def Let_def filter_empty_iff_children
          split: option.splits)
qed

theorem Stat_exact_match_first_witness:
  "rw (session [entry ''a'' 5, entry ''a/b'' 6] False) = Some [entry ''a'' 5, entry ''a/b'' 6] \<and>
   index_err quiet = None \<and>
   Find (Filter [entry ''a'' 5, entry ''a/b'' 6]) (normalizePath ''a'') = Some (entry ''a'' 5) \<and>
   childOf (normalizePath ''a'') (Name (entry ''a/b'' 6)) \<and>
   Stat quiet ''a'' (session [entry ''a'' 5, entry ''a/b'' 6] False)
     = (Inr (newFileInfo (entry ''a'' 5)), session [entry ''a'' 5, entry ''a/b'' 6] False) \<and>
   noMeta (normalizePath ''z'') \<and>
   Find (Filter [entry ''a'' 5, entry ''a/b'' 6]) (normalizePath ''z'') = None \<and>
   \<not> (\<exists>e\<in>set (Filter [entry ''a'' 5, entry ''a/b'' 6]). childOf (normalizePath ''z'') (Name e)) \<and>
   fst (Stat quiet ''z'' (session [entry ''a'' 5, entry ''a/b'' 6] False)) = Inl ErrNotExist \<and>
   noMeta (normalizePath ''a/b'') \<and>
   fst (Stat quiet ''a/b'' (session [entry ''a'' 5, entry ''a/b'' 6] False)) \<noteq> Inl ErrNotExist"
proof -
  have a: "rw (session [entry ''a'' 5, entry ''a/b'' 6] False) = Some [entry ''a'' 5, entry ''a/b'' 6]"
    by (simp add: session_def)
  have b: "index_err quiet = None" by (simp add: quiet_def)
  have f: "Find (Filter [entry ''a'' 5, entry ''a/b'' 6]) (normalizePath ''a'') = Some (entry ''a'' 5)"
    by code_simp
  have ch: "childOf (normalizePath ''a'') (Name (entry ''a/b'' 6))" by code_simp
  have m: "noMeta (normalizePath ''z'')" by code_simp
  have g: "Find (Filter [entry ''a'' 5, entry ''a/b'' 6]) (normalizePath ''z'') = None" by code_simp
  have h: "\<not> (\<exists>e\<in>set (Filter [entry ''a'' 5, entry ''a/b'' 6]). childOf (normalizePath ''z'') (Name e))"
    by code_simp
  have m2: "noMeta (normalizePath ''a/b'')" by code_simp
  have g2: "Find (Filter [entry ''a'' 5, entry ''a/b'' 6]) (normalizePath ''a/b'') \<noteq> None" by code_simp
  note t1 = Stat_exact_match_first [OF a b, of "''a''"]
  note t2 = Stat_exact_match_first [OF a b, of "''z''"]
  note t3 = Stat_exact_match_first [OF a b, of "''a/b''"]
  have 1: "Stat quiet ''a'' (session [entry ''a'' 5, entry ''a/b'' 6] False)
     = (Inr (newFileInfo (entry ''a'' 5)), session [entry ''a'' 5, entry ''a/b'' 6] False)"
    using t1 f by blast
  have 2: "fst (Stat quiet ''z'' (session [entry ''a'' 5, entry ''a/b'' 6] False)) = Inl ErrNotExist"
    using t2 m g h by blast
  have 3: "fst (Stat quiet ''a/b'' (session [entry ''a'' 5, entry ''a/b'' 6] False)) \<noteq> Inl ErrNotExist"
    using t3 m2 g2 by blast
  from a b f ch 1 m g h 2 m2 3 show ?thesis by blast
qed

section \<open>C6: flags of OpenFile\<close>

text \<open>
  C6, as stated, fails: \<open>O_APPEND\<close> is never inspected, and a request with
  \<open>O_WRONLY\<close>, \<open>O_CREATE\<close>, \<open>O_TRUNC\<close> and \<open>O_APPEND\<close> is accepted.
\<close>

theorem OpenFile_append_accepted_counterexample:
  "fst (OpenFile quiet ''x'' (O_WRONLY OR O_CREATE OR O_TRUNC OR O_APPEND) 438 (session [] False))
     = Inr (newFile ''x'' (O_WRONLY OR O_CREATE OR O_TRUNC OR O_APPEND)) \<and>
   (O_WRONLY OR O_CREATE OR O_TRUNC OR O_APPEND) AND O_APPEND \<noteq> 0"
proof -
  have n: "normalizePath ''x'' = ''x''" by code_simp
  show ?thesis
    by (simp add: n createFile_def WriteHeader_def OpenFile_def ensureOpen_def Let_def session_def quiet_def flag_defs)
qed

text \<open>
  C6, amended. \<open>OpenFile\<close> returns \<open>ErrNotSupported\<close> for every request with
  \<open>O_CREATE\<close> and without \<open>O_TRUNC\<close>; on an open session with no write handle
  outstanding, for every request with \<open>O_RDWR\<close>; on an open session, for every request
  with \<open>O_WRONLY\<close> and without \<open>O_CREATE\<close>. Every accepted request has \<open>O_RDWR\<close>
  clear, and has \<open>O_TRUNC\<close> if it has \<open>O_CREATE\<close>, and has \<open>O_WRONLY\<close> clear otherwise.
  Nothing is said of \<open>O_APPEND\<close>.
\<close>

theorem OpenFile_unsupported_flags:
  "(flag AND O_CREATE \<noteq> 0 \<and> flag AND O_TRUNC = 0 \<longrightarrow>
      OpenFile ev p flag mode fs = (Inl ErrNotSupported, fs)) \<and>
   (flag AND O_RDWR \<noteq> 0 \<and> rw fs \<noteq> None \<and> \<not> fileWriteModeOpen fs \<longrightarrow>
      OpenFile ev p flag mode fs = (Inl ErrNotSupported, fs)) \<and>
   (flag AND O_WRONLY \<noteq> 0 \<and> flag AND O_CREATE = 0 \<and> rw fs \<noteq> None \<longrightarrow>
      OpenFile ev p flag mode fs = (Inl ErrNotSupported, fs)) \<and>
   (fst (OpenFile ev p flag mode fs) = Inr h \<longrightarrow>
      flag AND O_RDWR = 0 \<and>
      (if flag AND O_CREATE \<noteq> 0 then flag AND O_TRUNC \<noteq> 0 else flag AND O_WRONLY = 0))"
  by (auto simp: createFile_def  OpenFile_def openFile_def ensureOpen_def Let_def split: option.splits prod.splits if_splits)

theorem OpenFile_unsupported_flags_witness:
  "OpenFile quiet ''x'' (O_WRONLY OR O_CREATE) 438 (session [] False) = (Inl ErrNotSupported, session [] False) \<and>
   OpenFile quiet ''x'' (O_RDWR OR O_CREATE OR O_TRUNC) 438 (session [] False) = (Inl ErrNotSupported, session [] False) \<and>
   OpenFile quiet ''x'' O_WRONLY 438 (session [] False) = (Inl ErrNotSupported, session [] False) \<and>
   fst (OpenFile quiet ''x'' (O_WRONLY OR O_CREATE OR O_TRUNC) 438 (session [] False))
     = Inr (newFile ''x'' (O_WRONLY OR O_CREATE OR O_TRUNC)) \<and>
   (O_WRONLY OR O_CREATE OR O_TRUNC) AND O_RDWR = 0 \<and>
   (O_WRONLY OR O_CREATE OR O_TRUNC) AND O_CREATE \<noteq> 0 \<and>
   (O_WRONLY OR O_CREATE OR O_TRUNC) AND O_TRUNC \<noteq> 0"
proof -
  have n: "normalizePath ''x'' = ''x''" by code_simp
  have r: "fst (OpenFile quiet ''x'' (O_WRONLY OR O_CREATE OR O_TRUNC) 438 (session [] False))
     = Inr (newFile ''x'' (O_WRONLY OR O_CREATE OR O_TRUNC))"
    by (simp add: n createFile_def WriteHeader_def OpenFile_def ensureOpen_def Let_def session_def quiet_def)
  have o: "rw (session [] False) \<noteq> None" "\<not> fileWriteModeOpen (session [] False)"
    by (simp_all add: session_def)
  have f: "(O_WRONLY OR O_CREATE) AND O_CREATE \<noteq> 0" "(O_WRONLY OR O_CREATE) AND O_TRUNC = 0"
     "(O_RDWR OR O_CREATE OR O_TRUNC) AND O_RDWR \<noteq> 0" "O_WRONLY AND O_WRONLY \<noteq> 0" "O_WRONLY AND O_CREATE = 0"
    by (simp_all add: flag_defs)
  have 1: "OpenFile quiet ''x'' (O_WRONLY OR O_CREATE) 438 (session [] False) = (Inl ErrNotSupported, session [] False)"
    using OpenFile_unsupported_flags [where flag = "O_WRONLY OR O_CREATE" and ev = quiet and p = "''x''" and mode = 438 and fs = "session [] False"] f(1,2)
    by blast
  have 2: "OpenFile quiet ''x'' (O_RDWR OR O_CREATE OR O_TRUNC) 438 (session [] False) = (Inl ErrNotSupported, session [] False)"
    using OpenFile_unsupported_flags [where flag = "O_RDWR OR O_CREATE OR O_TRUNC" and ev = quiet and p = "''x''" and mode = 438 and fs = "session [] False"] f(3) o
    by blast
  have 3: "OpenFile quiet ''x'' O_WRONLY 438 (session [] False) = (Inl ErrNotSupported, session [] False)"
    using OpenFile_unsupported_flags [where flag = "O_WRONLY" and ev = quiet and p = "''x''" and mode = 438 and fs = "session [] False"] f(4,5) o
    by blast
  have 4: "(O_WRONLY OR O_CREATE OR O_TRUNC) AND O_RDWR = 0 \<and>
      (if (O_WRONLY OR O_CREATE OR O_TRUNC) AND O_CREATE \<noteq> 0
       then (O_WRONLY OR O_CREATE OR O_TRUNC) AND O_TRUNC \<noteq> 0
       else (O_WRONLY OR O_CREATE OR O_TRUNC) AND O_WRONLY = 0)"
    using OpenFile_unsupported_flags [where flag = "O_WRONLY OR O_CREATE OR O_TRUNC" and ev = quiet and p = "''x''" and mode = 438 and fs = "session [] False" and h = "newFile ''x'' (O_WRONLY OR O_CREATE OR O_TRUNC)"] r
    by blast
  have 5: "(O_WRONLY OR O_CREATE OR O_TRUNC) AND O_CREATE \<noteq> 0 \<and>
           (O_WRONLY OR O_CREATE OR O_TRUNC) AND O_TRUNC \<noteq> 0"
    using 4 by (simp split: if_splits)
  from 1 2 3 r 4 5 show ?thesis by blast
qed

section \<open>C7: child directories of ReadDir\<close>

text \<open>
  C7, as stated, fails: with the single entry \<open>a/b/c/d\<close> in the archive, the segment
  \<open>b\<close> appears under \<open>a\<close>, and \<open>ReadDir\<close> of \<open>a\<close> lists nothing: the pattern \<open>a/*/*\<close> of
  \<open>listDirs\<close> matches exactly two further elements.
\<close>

theorem ReadDir_deep_entry_counterexample:
  "fst (ReadDir quiet ''a'' (session [entry ''a/b/c/d'' 5] False)) = Inr [] \<and>
   Filter [entry ''a/b/c/d'' 5] = [entry ''a/b/c/d'' 5]"
  by code_simp

text \<open>
  C7, amended. For a path whose normalized form \<open>d\<close> is free of pattern characters,
  on an open session whose index can be read, \<open>ReadDir\<close> returns the child directories
  followed by the entries that are immediate children of \<open>d\<close>. The child directories
  are, once each, the \<open>filepath.Dir\<close> of the entries named \<open>d\<close>, a slash and exactly two
  further elements (for the root, exactly two elements), each with the greatest modification time among those entries with
  that \<open>Dir\<close>; entries lying deeper do not count. After \<open>Create\<close> of \<open>a/b/c\<close> on an empty
  archive, \<open>ReadDir\<close> of \<open>a\<close> is the one directory \<open>a/b\<close> with the time of the creation.
\<close>

theorem ReadDir_child_directories:
  assumes "rw fs = Some i" and "index_err ev = None" and "noMeta (normalizePath p)"
  shows "\<exists>dirs. ReadDir ev p fs =
           (Inr (map (\<lambda>(dir, mt). newDirFileInfo dir mt) dirs @
                 map newFileInfo (filter (\<lambda>e. childOf (normalizePath p) (Name e)) (Filter i))), fs) \<and>
           distinct (map fst dirs) \<and>
           (\<forall>k t. (k, t) \<in> set dirs \<longleftrightarrow>
              (\<exists>e \<in> set (Filter i). grandchildOf (normalizePath p) (Name e) \<and> Dir (Name e) = k) \<and>
              t = Max (dirTimes k (filter (\<lambda>e. grandchildOf (normalizePath p) (Name e)) (Filter i))))"
proof -
  let ?G = "filter (\<lambda>e. grandchildOf (normalizePath p) (Name e)) (Filter i)"
  let ?dirs = "foldl dirsStep [] ?G"
  have r: "ReadDir ev p fs =
           (Inr (map (\<lambda>(dir, mt). newDirFileInfo dir mt) ?dirs @
                 map newFileInfo (filter (\<lambda>e. childOf (normalizePath p) (Name e)) (Filter i))), fs)"
    using assms(1,2) listFiles_normalized [OF assms(3), of "Filter i"]
      listDirs_normalized [OF assms(3), of "Filter i"]
    by (simp add: ReadDir_def ensureOpen_def getIndex_def Let_def)
  have d: "distinct (map fst ?dirs)"
    by (rule foldl_dirsStep_distinct) simp
  have t: "(dirTimes k ?G \<noteq> {}) = (\<exists>e \<in> set (Filter i). grandchildOf (normalizePath p) (Name e) \<and> Dir (Name e) = k)" for k
    by (auto simp: dirTimes_def)
  have m: "\<forall>k t. (k, t) \<in> set ?dirs \<longleftrightarrow>
              (\<exists>e \<in> set (Filter i). grandchildOf (normalizePath p) (Name e) \<and> Dir (Name e) = k) \<and>
              t = Max (dirTimes k ?G)"
    by (simp add: foldl_dirsStep_set t)
  from r d m show ?thesis by blast
qed

theorem ReadDir_child_directories_witness:
  "rw (session [entry ''a/b/c'' 7] False) = Some [entry ''a/b/c'' 7] \<and> index_err quiet = None \<and>
   noMeta (normalizePath ''a'') \<and>
   (\<exists>dirs. ReadDir quiet ''a'' (session [entry ''a/b/c'' 7] False) =
           (Inr (map (\<lambda>(dir, mt). newDirFileInfo dir mt) dirs @
                 map newFileInfo (filter (\<lambda>e. childOf (normalizePath ''a'') (Name e)) (Filter [entry ''a/b/c'' 7]))),
            session [entry ''a/b/c'' 7] False) \<and>
           distinct (map fst dirs) \<and>
           (\<forall>k t. (k, t) \<in> set dirs \<longleftrightarrow>
              (\<exists>e \<in> set (Filter [entry ''a/b/c'' 7]). grandchildOf (normalizePath ''a'') (Name e) \<and> Dir (Name e) = k) \<and>
              t = Max (dirTimes k (filter (\<lambda>e. grandchildOf (normalizePath ''a'') (Name e)) (Filter [entry ''a/b/c'' 7]))))) \<and>
   fst (ReadDir quiet ''a'' (session [entry ''a/b/c'' 7] False)) = Inr [newDirFileInfo ''a/b'' 7] \<and>
   fst (ReadDir quiet ''a'' (snd (Create quiet ''a/b/c'' (session [] False)))) = Inr [newDirFileInfo ''a/b'' (now quiet)]"
proof -
  have a: "rw (session [entry ''a/b/c'' 7] False) = Some [entry ''a/b/c'' 7]" by (simp add: session_def)
  have b: "index_err quiet = None" by (simp add: quiet_def)
  have c: "noMeta (normalizePath ''a'')" by code_simp
  have e1: "fst (ReadDir quiet ''a'' (session [entry ''a/b/c'' 7] False)) = Inr [newDirFileInfo ''a/b'' 7]"
    by code_simp
  have e2: "fst (ReadDir quiet ''a'' (snd (Create quiet ''a/b/c'' (session [] False)))) = Inr [newDirFileInfo ''a/b'' (now quiet)]"
    by code_simp
  from ReadDir_child_directories [OF a b c] a b c e1 e2 show ?thesis by blast
qed

section \<open>C8: MkdirAll\<close>

text \<open>
  C8. \<open>MkdirAll\<close> looks the file name up as the caller wrote it, where \<open>Stat\<close>,
  \<open>ReadDir\<close>, \<open>Remove\<close> and \<open>OpenFile\<close> normalize the path first. With the file \<open>a\<close> in
  the archive, \<open>MkdirAll\<close> of \<open>/a\<close> returns no error, while \<open>MkdirAll\<close> of \<open>a\<close> returns
  \<open>ENOTDIR\<close> and \<open>Stat\<close> of \<open>/a\<close> finds the file.
\<close>

theorem MkdirAll_leading_slash:
  "MkdirAll quiet ''/a'' 493 (session [entry ''a'' 5] False) = (None, session [entry ''a'' 5] False) \<and>
   normalizePath ''/a'' = ''a'' \<and>
   MkdirAll quiet ''a'' 493 (session [entry ''a'' 5] False)
     = (Some (PathError ''mkdir'' ''a'' ENOTDIR), session [entry ''a'' 5] False) \<and>
   fst (Stat quiet ''/a'' (session [entry ''a'' 5] False)) = Inr (newFileInfo (entry ''a'' 5))"
proof -
  have n: "normalizePath ''/a'' = ''a''" by code_simp
  have fl: "Filter [entry ''a'' 5] = [entry ''a'' 5]"
    by (simp add: Filter_def FlagDeleted_def)
  show ?thesis
    by (simp add: n fl MkdirAll_def Stat_def ensureOpen_def getIndex_def Find_def session_def quiet_def Let_def)
qed

section \<open>C9: the session is opened and closed once\<close>

text \<open>
  C9. \<open>ensureOpen\<close> on a session that is open returns no error and leaves the
  session as it is; \<open>ensureClosed\<close>, called through \<open>Sync\<close>, on a session that is closed
  returns no error and leaves it as it is. \<open>Sync\<close> after \<open>Sync\<close> leaves the session in
  the state the first \<open>Sync\<close> left it in; when the first one closed the archive writer,
  the second returns no error whatever the collaborators would answer.
\<close>

theorem ensure_idempotent: 
  "(rw fs \<noteq> None \<longrightarrow> ensureOpen ev fs = (None, fs)) \<and>
   (rw fs' = None \<longrightarrow> Sync ev fs' = (None, fs')) \<and>
   snd (Sync ev (snd (Sync ev fs))) = snd (Sync ev fs) \<and>
   (rw_close_err ev = None \<longrightarrow> Sync ev' (snd (Sync ev fs)) = (None, snd (Sync ev fs)))"
  by (auto simp: ensureOpen_def Sync_def ensureClosed_def split: option.splits)

theorem ensure_idempotent_witness:
  "ensureOpen quiet (session [] False) = (None, session [] False) \<and>
   Sync quiet unopened = (None, unopened) \<and>
   snd (Sync quiet (snd (Sync quiet (session [] False)))) = snd (Sync quiet (session [] False)) \<and>
   Sync quiet (snd (Sync quiet (session [] False))) = (None, unopened) \<and>
   rw (session [] False) \<noteq> None \<and> rw unopened = None \<and> rw_close_err quiet = None"
  using ensure_idempotent [of "session [] False" quiet unopened quiet]
  by (simp add: session_def unopened_def quiet_def Sync_def ensureClosed_def wrap_def)

section \<open>C10: a failed header write\<close>

text \<open>
  C10. When \<open>rw.WriteHeader\<close> fails inside \<open>createFile\<close>, the error is returned and
  the session is unchanged: \<open>fileWriteModeOpen\<close> keeps its value, since the deferred
  assignment is registered only after the header was written. On a session whose flag was
  clear, the next \<open>Create\<close> whose header write succeeds returns a handle.
\<close>

theorem createFile_header_failure:
  assumes "rw fs = Some i" and "write_err ev = Some n" and "flag AND O_RDWR = 0"
  shows "createFile ev p flag mode fs = (Inl (External n), fs) \<and>
         (\<not> fileWriteModeOpen fs \<longrightarrow> write_err ev' = None \<longrightarrow>
            fst (Create ev' p' (snd (createFile ev p flag mode fs)))
              = Inr (newFile (normalizePath p') (O_WRONLY OR O_CREATE OR O_TRUNC)))"
  using assms
  by (simp add: createFile_def WriteHeader_def Create_def OpenFile_def ensureOpen_def Let_def)

theorem createFile_header_failure_witness:
  "rw (session [] False) = Some [] \<and> write_err (quiet\<lparr>write_err := Some 5\<rparr>) = Some 5 \<and>
   (O_WRONLY OR O_CREATE OR O_TRUNC) AND O_RDWR = 0 \<and>
   createFile (quiet\<lparr>write_err := Some 5\<rparr>) ''a'' (O_WRONLY OR O_CREATE OR O_TRUNC) 438 (session [] False)
     = (Inl (External 5), session [] False) \<and>
   fst (Create quiet ''b''
     (snd (createFile (quiet\<lparr>write_err := Some 5\<rparr>) ''a'' (O_WRONLY OR O_CREATE OR O_TRUNC) 438 (session [] False))))
     = Inr (newFile ''b'' (O_WRONLY OR O_CREATE OR O_TRUNC))"
proof -
  have a: "rw (session [] False) = Some []" by (simp add: session_def)
  have b: "write_err (quiet\<lparr>write_err := Some 5\<rparr>) = Some 5" by simp
  have c: "(O_WRONLY OR O_CREATE OR O_TRUNC) AND O_RDWR = 0" by simp
  have d: "\<not> fileWriteModeOpen (session [] False)" by (simp add: session_def)
  have w: "write_err quiet = None" by (simp add: quiet_def)
  have n: "normalizePath ''b'' = ''b''" by code_simp
  note t = createFile_header_failure [OF a b c, of "''a''" 438 quiet "''b''"]
  have 1: "createFile (quiet\<lparr>write_err := Some 5\<rparr>) ''a'' (O_WRONLY OR O_CREATE OR O_TRUNC) 438 (session [] False)
     = (Inl (External 5), session [] False)"
    using t by (rule conjunct1)
  have 2: "fst (Create quiet ''b''
     (snd (createFile (quiet\<lparr>write_err := Some 5\<rparr>) ''a'' (O_WRONLY OR O_CREATE OR O_TRUNC) 438 (session [] False))))
     = Inr (newFile ''b'' (O_WRONLY OR O_CREATE OR O_TRUNC))"
    using t [THEN conjunct2, THEN mp, OF d, THEN mp, OF w] unfolding n .
  from a b c 1 2 show ?thesis by blast
qed

end
